theory Spec2Isabelle
  imports Complex_Main "HOL-Library.Word"
begin

section \<open>Data model (types.ts)\<close>

text \<open>
  Text is modelled as \<open>string\<close>. Optional interface members (\<open>images?\<close>, \<open>total?\<close>,
  ...) are options.

  A JavaScript \<open>number\<close> is a double: a finite value (a rational; the two zeros are
  not told apart, both are falsy and both print as \<open>0\<close>), \<open>NaN\<close> or an infinity. The
  arithmetic on numbers, which rounds, is not fixed here: the code that computes with
  numbers takes the operations as a parameter.
\<close>

datatype number = Finite rat | NaN | PosInfinity | NegInfinity

datatype role = User | Assistant

record ChatMessage =
  role :: role
  content :: string
  images :: "string list option"

record OllamaModel =
  name :: string
  modified_at :: string
  model_size :: number

record OllamaTagResponse =
  tag_models :: "OllamaModel list"

text \<open>
  \<open>OllamaChatChunk\<close>: the code guards \<open>chunk.message && chunk.message.content\<close>, so the
  member \<open>message\<close> may be missing at run time and is an option here. The member
  \<open>done\<close> is called \<open>done_flag\<close>.
\<close>

record ChunkMessage =
  msg_role :: role
  msg_content :: string

record OllamaChatChunk =
  model :: string
  created_at :: string
  message :: "ChunkMessage option"
  done_flag :: bool

record OllamaPullStatus =
  status :: string
  digest :: "string option"
  total :: "number option"
  completed :: "number option"
  pull_error :: "string option"

section \<open>The platform: errors, fetch, response bodies, text decoding\<close>

text \<open>
  A thrown value is a \<open>TypeError\<close>, another \<open>Error\<close> (both with their message), or a
  value that is not an \<open>Error\<close> instance.
\<close>

datatype js_error = TypeError string | Error string | NonError

type_synonym byte = "8 word"

text \<open>
  A response body is the list of byte chunks that successive \<open>reader.read()\<close> calls
  yield, and what the read after the last chunk does: it reports end-of-stream
  (\<open>Closed\<close>) or rejects (\<open>Failed\<close>, the connection broke).
\<close>

datatype stream_end = Closed | Failed js_error

text \<open>
  What \<open>fetch\<close> does for a streaming request: it rejects, or it resolves to a response
  whose \<open>body\<close> is null (\<open>None\<close>) or a stream. Neither \<open>streamChat\<close> nor \<open>pullModel\<close>
  looks at the status of the response.
\<close>

datatype stream_response =
  FetchRejected js_error
| Response "(byte list list \<times> stream_end) option"

text \<open>
  \<open>new TextDecoder()\<close> used with \<open>{stream: true}\<close> is a transducer: it has an initial
  state, consumes the bytes one by one, and each byte emits zero or more characters
  and updates the state (an incomplete multi-byte sequence is kept in the state).
  The theory is parametric in this transducer.
\<close>

record 's TextDecoder =
  dec_init :: 's
  dec_step :: "'s \<Rightarrow> byte \<Rightarrow> 's \<times> string"

fun decode :: "('s \<Rightarrow> byte \<Rightarrow> 's \<times> string) \<Rightarrow> 's \<Rightarrow> byte list \<Rightarrow> string \<times> 's" where
  "decode stp s [] = ([], s)"
| "decode stp s (b # bs) =
     (case stp s b of (s', out) \<Rightarrow>
        (case decode stp s' bs of (txt, s'') \<Rightarrow> (out @ txt, s'')))"

text \<open>
  The observable effects of a service call, in the order they happen: the request,
  each \<open>reader.read()\<close>, each call of the consumer's callback (\<open>onChunk\<close>, \<open>onProgress\<close>)
  with its argument, and each \<open>console.error\<close> with the offending line.
\<close>

datatype request_body =
  ChatRequest string "ChatMessage list"
| PullRequest string

datatype 'a effect =
  Fetch string request_body
| Read
| Callback 'a
| ConsoleError string

datatype outcome = Resolved | Rejected js_error

fun settle :: "stream_end \<Rightarrow> outcome" where
  "settle Closed = Resolved"
| "settle (Failed err) = Rejected err"

section \<open>String operations of the language\<close>

definition newline :: char where
  "newline = CHR 0x0A"

text \<open>\<open>s.indexOf(c)\<close>; \<open>None\<close> stands for \<open>-1\<close>.\<close>

fun indexOf :: "string \<Rightarrow> char \<Rightarrow> nat option" where
  "indexOf [] c = None"
| "indexOf (x # xs) c = (if x = c then Some 0 else map_option Suc (indexOf xs c))"

text \<open>
  \<open>s.split(c)\<close>: the pieces between the separators, empty pieces included. The result
  is never the empty list; the last case below only makes the definition total.
\<close>

fun split :: "string \<Rightarrow> char \<Rightarrow> string list" where
  "split [] c = [[]]"
| "split (x # xs) c =
     (if x = c then [] # split xs c
      else (case split xs c of p # ps \<Rightarrow> (x # p) # ps | [] \<Rightarrow> [[x]]))"

text \<open>
  The white space and line terminators that \<open>trim\<close> strips, among the characters of
  \<open>string\<close>: TAB, LF, VT, FF, CR, SP and NBSP.
\<close>

definition is_white_space :: "char \<Rightarrow> bool" where
  "is_white_space c \<longleftrightarrow> c \<in> set [CHR 0x09, CHR 0x0A, CHR 0x0B, CHR 0x0C, CHR 0x0D, CHR 0x20, CHR 0xA0]"

definition trim :: "string \<Rightarrow> string" where
  "trim s = rev (dropWhile is_white_space (rev (dropWhile is_white_space s)))"

section \<open>OllamaService (services/ollamaService.ts)\<close>

text \<open>The constructor strips one trailing slash from the base URL.\<close>

definition OllamaService :: "string \<Rightarrow> string" where
  "OllamaService baseUrl = (if baseUrl \<noteq> [] \<and> last baseUrl = CHR ''/'' then butlast baseUrl else baseUrl)"

subsection \<open>streamChat\<close>

text \<open>
  The parameter \<open>parse\<close> stands for \<open>JSON.parse(jsonStr) as OllamaChatChunk\<close>; it is
  \<open>None\<close> where the body of the \<open>try\<close> throws before the callback (a syntax error, or
  the value \<open>null\<close>, whose member access throws).

  \<open>handle_line\<close> is the body of the inner loop for one \<open>jsonStr\<close>: its effects, and
  whether it executed \<open>return\<close>.
\<close>

definition handle_line :: "(string \<Rightarrow> OllamaChatChunk option) \<Rightarrow> string \<Rightarrow> string effect list \<times> bool" where
  "handle_line parse jsonStr =
     (if trim jsonStr \<noteq> [] then
        (case parse jsonStr of
           None \<Rightarrow> ([ConsoleError jsonStr], False)
         | Some chunk \<Rightarrow>
             ((case message chunk of
                 None \<Rightarrow> []
               | Some m \<Rightarrow> if msg_content m \<noteq> [] then [Callback (msg_content m)] else []),
              done_flag chunk))
      else ([], False))"

lemma indexOf_less: "indexOf s c = Some i \<Longrightarrow> i < length s"
  by (induction s arbitrary: i) (auto split: if_splits)

text \<open>
  The inner \<open>while (boundary !== -1)\<close> loop on the buffer. The result is the effects
  and the buffer left when the loop ends, or \<open>None\<close> when a record with \<open>done\<close> made
  \<open>streamChat\<close> return.
\<close>

function process_buffer :: "(string \<Rightarrow> OllamaChatChunk option) \<Rightarrow> string \<Rightarrow> string effect list \<times> string option" where
  "process_buffer parse buffer =
     (case indexOf buffer newline of
        None \<Rightarrow> ([], Some buffer)
      | Some boundary \<Rightarrow>
          (case handle_line parse (take boundary buffer) of
             (es, True) \<Rightarrow> (es, None)
           | (es, False) \<Rightarrow>
               (case process_buffer parse (drop (boundary + 1) buffer) of
                  (es', r) \<Rightarrow> (es @ es', r))))"
  by pat_completeness auto
termination
  by (relation "measure (\<lambda>(parse, buffer). length buffer)") (auto dest: indexOf_less)

declare process_buffer.simps [simp del]

text \<open>The outer \<open>while (true)\<close> loop: one \<open>reader.read()\<close> per round.\<close>

fun chat_loop :: "('s \<Rightarrow> byte \<Rightarrow> 's \<times> string) \<Rightarrow> (string \<Rightarrow> OllamaChatChunk option) \<Rightarrow> 's \<Rightarrow> string
    \<Rightarrow> byte list list \<Rightarrow> stream_end \<Rightarrow> string effect list \<times> outcome" where
  "chat_loop stp parse st buffer [] e = ([Read], settle e)"
| "chat_loop stp parse st buffer (v # rest) e =
     (case decode stp st v of (text, st') \<Rightarrow>
        (case process_buffer parse (buffer @ text) of
           (es, None) \<Rightarrow> (Read # es, Resolved)
         | (es, Some buffer') \<Rightarrow>
             (case chat_loop stp parse st' buffer' rest e of
                (es', out) \<Rightarrow> (Read # es @ es', out))))"

definition streamChat :: "string \<Rightarrow> 's TextDecoder \<Rightarrow> (string \<Rightarrow> OllamaChatChunk option) \<Rightarrow> stream_response
    \<Rightarrow> string \<Rightarrow> ChatMessage list \<Rightarrow> string effect list \<times> outcome" where
  "streamChat baseUrl decoder parse response mdl msgs =
     (let request = Fetch (baseUrl @ ''/api/chat'') (ChatRequest mdl msgs) in
      case response of
        FetchRejected err \<Rightarrow> ([request], Rejected err)
      | Response None \<Rightarrow> ([request], Rejected (Error ''Response body is null''))
      | Response (Some (chunks, e)) \<Rightarrow>
          (case chat_loop (dec_step decoder) parse (dec_init decoder) [] chunks e of
             (es, out) \<Rightarrow> (request # es, out)))"

subsection \<open>pullModel\<close>

text \<open>
  The parameter \<open>parse\<close> stands for \<open>JSON.parse(jsonObj) as OllamaPullStatus\<close>, \<open>None\<close>
  where it throws. \<open>pull_chunk\<close> is what one round of the loop does with the decoded
  text of one read: split at newlines, keep the pieces that are not blank, parse each.
\<close>

definition pull_chunk :: "(string \<Rightarrow> OllamaPullStatus option) \<Rightarrow> string \<Rightarrow> OllamaPullStatus effect list" where
  "pull_chunk parse chunk =
     (let jsonObjects = filter (\<lambda>s. trim s \<noteq> []) (split chunk newline) in
      concat (map (\<lambda>jsonObj. case parse jsonObj of
                                None \<Rightarrow> [ConsoleError jsonObj]
                              | Some parsed \<Rightarrow> [Callback parsed]) jsonObjects))"

fun pull_loop :: "('s \<Rightarrow> byte \<Rightarrow> 's \<times> string) \<Rightarrow> (string \<Rightarrow> OllamaPullStatus option) \<Rightarrow> 's
    \<Rightarrow> byte list list \<Rightarrow> stream_end \<Rightarrow> OllamaPullStatus effect list \<times> outcome" where
  "pull_loop stp parse st [] e = ([Read], settle e)"
| "pull_loop stp parse st (v # rest) e =
     (case decode stp st v of (chunk, st') \<Rightarrow>
        (case pull_loop stp parse st' rest e of
           (es, out) \<Rightarrow> (Read # pull_chunk parse chunk @ es, out)))"

definition pullModel :: "string \<Rightarrow> 's TextDecoder \<Rightarrow> (string \<Rightarrow> OllamaPullStatus option) \<Rightarrow> stream_response
    \<Rightarrow> string \<Rightarrow> OllamaPullStatus effect list \<times> outcome" where
  "pullModel baseUrl decoder parse response modelName =
     (let request = Fetch (baseUrl @ ''/api/pull'') (PullRequest modelName) in
      case response of
        FetchRejected err \<Rightarrow> ([request], Rejected err)
      | Response None \<Rightarrow> ([request], Rejected (Error ''Response body is null''))
      | Response (Some (chunks, e)) \<Rightarrow>
          (case pull_loop (dec_step decoder) parse (dec_init decoder) chunks e of
             (es, out) \<Rightarrow> (request # es, out)))"


subsection \<open>listModels\<close>

text \<open>
  What \<open>fetch\<close> does for \<open>GET /api/tags\<close>: it rejects (the server is unreachable), or
  it resolves to a response with its \<open>ok\<close> flag and what \<open>response.json()\<close> settles to.
\<close>

datatype tags_response =
  TagsRejected js_error
| TagsResponse bool "js_error + OllamaTagResponse"

definition listModels :: "tags_response \<Rightarrow> js_error + OllamaTagResponse" where
  "listModels response =
     (case response of
        TagsRejected err \<Rightarrow> Inl err
      | TagsResponse ok json \<Rightarrow>
          if \<not> ok then Inl (Error ''Failed to fetch models from Ollama.'') else json)"

section \<open>The consumers of the trace\<close>

fun callbacks :: "'a effect list \<Rightarrow> 'a list" where
  "callbacks [] = []"
| "callbacks (Callback x # es) = x # callbacks es"
| "callbacks (e # es) = callbacks es"

fun reads :: "'a effect list \<Rightarrow> nat" where
  "reads [] = 0"
| "reads (Read # es) = Suc (reads es)"
| "reads (e # es) = reads es"

fun requests :: "'a effect list \<Rightarrow> (string \<times> request_body) list" where
  "requests [] = []"
| "requests (Fetch url body # es) = (url, body) # requests es"
| "requests (e # es) = requests es"

fun logged :: "'a effect list \<Rightarrow> string list" where
  "logged [] = []"
| "logged (ConsoleError l # es) = l # logged es"
| "logged (e # es) = logged es"

section \<open>The application (App.tsx)\<close>

text \<open>
  The state hooks of \<open>App\<close> that \<open>fetchModels\<close> and \<open>handleSendMessage\<close> read and
  write. A call runs against the state of its start, and its state updates are
  applied in the order the code issues them.
\<close>

record App =
  ollamaHost :: string
  models :: "OllamaModel list"
  selectedModel :: string
  messages :: "ChatMessage list"
  isLoading :: bool
  error :: "string option"

subsection \<open>fetchModels\<close>

definition fetchModels :: "tags_response \<Rightarrow> App \<Rightarrow> App" where
  "fetchModels response st =
     (let st1 = st\<lparr>error := None\<rparr> in
      case listModels response of
        Inr data \<Rightarrow>
          (let st2 = st1\<lparr>models := tag_models data\<rparr> in
           if length (tag_models data) > 0
              \<and> \<not> list_ex (\<lambda>m. name m = selectedModel st) (tag_models data)
           then st2\<lparr>selectedModel := name (hd (tag_models data))\<rparr>
           else if length (tag_models data) = 0
           then st2\<lparr>selectedModel := []\<rparr>
           else st2)
      | Inl err \<Rightarrow>
          st1\<lparr>error := Some (''Failed to connect to Ollama at '' @ [CHR 0x27] @ ollamaHost st @ [CHR 0x27] @ ''.''),
               models := [],
               selectedModel := []\<rparr>)"

subsection \<open>handleSendMessage\<close>

text \<open>
  The state update of the \<open>onChunk\<close> callback. On an empty history the source reads
  \<open>content\<close> of \<open>undefined\<close>, which throws: \<open>None\<close>.
\<close>

definition onChunk :: "string \<Rightarrow> ChatMessage list \<Rightarrow> ChatMessage list option" where
  "onChunk chunk prev =
     (if prev = [] then None
      else (let lastMsgIndex = length prev - 1 in
            Some (prev[lastMsgIndex := (prev ! lastMsgIndex)\<lparr>content := content (prev ! lastMsgIndex) @ chunk\<rparr>])))"

fun apply_chunks :: "string list \<Rightarrow> ChatMessage list \<Rightarrow> ChatMessage list option" where
  "apply_chunks [] prev = Some prev"
| "apply_chunks (chunk # chunks) prev =
     (case onChunk chunk prev of None \<Rightarrow> None | Some updatedMessages \<Rightarrow> apply_chunks chunks updatedMessages)"

text \<open>\<open>toLowerCase\<close> and \<open>includes\<close> (here \<open>string_includes\<close>) on the characters of \<open>string\<close>.\<close>

definition toLowerCase :: "string \<Rightarrow> string" where
  "toLowerCase s =
     map (\<lambda>c. let n = (of_char c :: nat) in
               if (65 \<le> n \<and> n \<le> 90) \<or> (192 \<le> n \<and> n \<le> 222 \<and> n \<noteq> 215) then char_of (n + 32) else c) s"

fun string_includes :: "string \<Rightarrow> string \<Rightarrow> bool" where
  "string_includes [] t = (t = [])"
| "string_includes (x # xs) t = (take (length t) (x # xs) = t \<or> string_includes xs t)"

text \<open>The message computed at the start of the \<open>catch\<close> block.\<close>

definition errorMessage :: "js_error \<Rightarrow> string" where
  "errorMessage err =
     (case err of
        TypeError m \<Rightarrow>
          if string_includes (toLowerCase m) ''failed to fetch''
          then ''Could not connect to Ollama. Please verify the host is running and reachable, and that CORS is configured correctly.''
          else m
      | Error m \<Rightarrow> m
      | NonError \<Rightarrow> ''An unknown error occurred'')"

text \<open>The state update of the \<open>catch\<close> block.\<close>

definition catch_update :: "string \<Rightarrow> ChatMessage list \<Rightarrow> ChatMessage list" where
  "catch_update msg prev =
     (if prev \<noteq> [] \<and> role (last prev) = Assistant \<and> content (last prev) = []
      then prev[length prev - 1 := (prev ! (length prev - 1))\<lparr>content := ''Error: '' @ msg\<rparr>]
      else prev @ [\<lparr>role = Assistant, content = ''Error: '' @ msg, images = None\<rparr>])"

text \<open>
  \<open>handleSendMessage\<close> returns the state it leaves and the trace of the service call
  (empty when no call is made); \<open>None\<close> if a state update throws.
\<close>

definition handleSendMessage :: "'s TextDecoder \<Rightarrow> (string \<Rightarrow> OllamaChatChunk option) \<Rightarrow> stream_response
    \<Rightarrow> App \<Rightarrow> string \<Rightarrow> string list option \<Rightarrow> (App \<times> string effect list) option" where
  "handleSendMessage decoder parse response st msg imgs =
     (if selectedModel st = [] then
        (let tempError = \<lparr>role = Assistant, content = ''Error: Please select a model from the sidebar first.'', images = None\<rparr>
         in Some (st\<lparr>messages := messages st @ [tempError]\<rparr>, []))
      else
        (let newUserMessage = \<lparr>role = User, content = msg, images = imgs\<rparr>;
             newMessages = messages st @ [newUserMessage];
             st1 = st\<lparr>messages := newMessages, isLoading := True, error := None\<rparr>;
             st2 = st1\<lparr>messages := messages st1 @ [\<lparr>role = Assistant, content = [], images = None\<rparr>]\<rparr>
         in case streamChat (OllamaService (ollamaHost st)) decoder parse response (selectedModel st) newMessages of
              (trace, out) \<Rightarrow>
                (case apply_chunks (callbacks trace) (messages st2) of
                   None \<Rightarrow> None
                 | Some streamed \<Rightarrow>
                     (let st3 = st2\<lparr>messages := streamed\<rparr>;
                          st4 = (case out of
                                   Resolved \<Rightarrow> st3
                                 | Rejected err \<Rightarrow> st3\<lparr>messages := catch_update (errorMessage err) (messages st3)\<rparr>)
                      in Some (st4\<lparr>isLoading := False\<rparr>, trace)))))"

section \<open>The sidebar (components/Sidebar.tsx)\<close>

text \<open>
  The division and the multiplication of doubles, as the platform computes them.
\<close>

record arithmetic =
  js_divide :: "number \<Rightarrow> number \<Rightarrow> number"
  js_multiply :: "number \<Rightarrow> number \<Rightarrow> number"

text \<open>
  The truth value of an optional number member: \<open>undefined\<close>, zero and \<open>NaN\<close> are falsy.
\<close>

definition truthy :: "number option \<Rightarrow> bool" where
  "truthy n =
     (case n of
        None \<Rightarrow> False
      | Some (Finite x) \<Rightarrow> x \<noteq> 0
      | Some NaN \<Rightarrow> False
      | Some PosInfinity \<Rightarrow> True
      | Some NegInfinity \<Rightarrow> True)"

definition percentage :: "arithmetic \<Rightarrow> OllamaPullStatus \<Rightarrow> number" where
  "percentage ar st =
     (if truthy (total st) \<and> truthy (completed st)
      then (case (completed st, total st) of
              (Some c, Some t) \<Rightarrow> js_multiply ar (js_divide ar c t) (Finite 100)
            | _ \<Rightarrow> Finite 0)
      else Finite 0)"

text \<open>
  What the expression \<open>{status.total && status.completed && (<div> ... </div>)}\<close>
  renders under the status line. \<open>a && b\<close> is \<open>a\<close> when \<open>a\<close> is falsy, else \<open>b\<close>: so the
  expression is the bar when both numbers are truthy, and otherwise the first falsy
  operand. A missing member (\<open>undefined\<close>) renders nothing; a falsy number (zero or
  \<open>NaN\<close>) is rendered as a text node showing that number.
\<close>

datatype node = Bar number | TextNode number | Nothing

definition PullProgress :: "arithmetic \<Rightarrow> OllamaPullStatus \<Rightarrow> string \<times> node" where
  "PullProgress ar st =
     (status st,
      case total st of
        None \<Rightarrow> Nothing
      | Some t \<Rightarrow>
          if \<not> truthy (Some t) then TextNode t
          else (case completed st of
                  None \<Rightarrow> Nothing
                | Some c \<Rightarrow>
                    if \<not> truthy (Some c) then TextNode c
                    else Bar (percentage ar st)))"

section \<open>The records of a stream (specification, section 4.2)\<close>

text \<open>
  The wire format: each record is followed by a newline. \<open>spec_deltas\<close> follows the
  words of the specification on the records themselves: a record that is blank after
  trimming is skipped, a record that fails to parse is discarded, the content delta
  of a parsed record is handed over, and a record with \<open>done\<close> ends consumption.
\<close>

definition ndjson :: "string list \<Rightarrow> string" where
  "ndjson records = concat (map (\<lambda>r. r @ [newline]) records)"

definition delta :: "OllamaChatChunk \<Rightarrow> string list" where
  "delta ev = (case message ev of None \<Rightarrow> [] | Some m \<Rightarrow> if msg_content m = [] then [] else [msg_content m])"

fun spec_deltas :: "(string \<Rightarrow> OllamaChatChunk option) \<Rightarrow> string list \<Rightarrow> string list" where
  "spec_deltas parse [] = []"
| "spec_deltas parse (r # rs) =
     (if trim r = [] then spec_deltas parse rs
      else (case parse r of
              None \<Rightarrow> spec_deltas parse rs
            | Some ev \<Rightarrow> delta ev @ (if done_flag ev then [] else spec_deltas parse rs)))"

text \<open>The same for progress records: every parsed record is an event.\<close>

fun spec_events :: "(string \<Rightarrow> OllamaPullStatus option) \<Rightarrow> string list \<Rightarrow> OllamaPullStatus list" where
  "spec_events parse [] = []"
| "spec_events parse (r # rs) =
     (if trim r = [] then spec_events parse rs
      else (case parse r of
              None \<Rightarrow> spec_events parse rs
            | Some ev \<Rightarrow> ev # spec_events parse rs))"


text \<open>The inner loop, seen on whole records.\<close>

fun chat_records :: "(string \<Rightarrow> OllamaChatChunk option) \<Rightarrow> string list \<Rightarrow> string effect list \<times> bool" where
  "chat_records parse [] = ([], False)"
| "chat_records parse (l # ls) =
     (case handle_line parse l of
        (es, True) \<Rightarrow> (es, True)
      | (es, False) \<Rightarrow> (case chat_records parse ls of (es', d) \<Rightarrow> (es @ es', d)))"

section \<open>Sample inputs\<close>

text \<open>
  The closed examples below run the code on these inputs. A UTF-8 decoder maps a byte
  below \<open>0x80\<close> to the character of that code and keeps no state for it;
  \<open>utf8_ascii\<close> is the decoder on such bytes (the examples contain no other byte, for
  which it emits nothing), and \<open>ascii_bytes\<close> is the encoding of a text.

  \<open>chat_json c d\<close> is the JSON text of a chat record with content \<open>c\<close> and \<open>done = d\<close>,
  \<open>chat_value c d\<close> the value it parses to; likewise \<open>pull_json\<close> and \<open>pull_value\<close> for
  a progress record. \<open>sample_parse\<close> and \<open>sample_pull_parse\<close> parse the listed records
  and fail on every other text; the examples use them on the listed records, on
  fragments of them and on a line that is not JSON.
\<close>

definition utf8_ascii :: "unit TextDecoder" where
  "utf8_ascii = \<lparr>dec_init = (), dec_step = (\<lambda>s b. (s, if b < 0x80 then [char_of (unat b)] else []))\<rparr>"

definition ascii_bytes :: "string \<Rightarrow> byte list" where
  "ascii_bytes s = map of_char s"

definition chat_json :: "string \<Rightarrow> bool \<Rightarrow> string" where
  \<open>chat_json c d =
     ''{"model":"llama3","created_at":"2024-05-01T12:00:00Z","message":{"role":"assistant","content":"'' @ c
     @ ''"},"done":'' @ (if d then ''true'' else ''false'') @ ''}''\<close>

definition chat_value :: "string \<Rightarrow> bool \<Rightarrow> OllamaChatChunk" where
  "chat_value c d =
     \<lparr>model = ''llama3'', created_at = ''2024-05-01T12:00:00Z'',
      message = Some \<lparr>msg_role = Assistant, msg_content = c\<rparr>, done_flag = d\<rparr>"

definition sample_parse :: "string \<Rightarrow> OllamaChatChunk option" where
  "sample_parse =
     map_of [(chat_json ''Hel'' False, chat_value ''Hel'' False),
             (chat_json ''lo, '' False, chat_value ''lo, '' False),
             (chat_json ''world'' False, chat_value ''world'' False),
             (chat_json [] True, chat_value [] True)]"

definition pull_json :: "string \<Rightarrow> string" where
  \<open>pull_json s = ''{"status":"'' @ s @ ''"}''\<close>

definition pull_value :: "string \<Rightarrow> OllamaPullStatus" where
  "pull_value s = \<lparr>status = s, digest = None, total = None, completed = None, pull_error = None\<rparr>"

definition sample_pull_parse :: "string \<Rightarrow> OllamaPullStatus option" where
  "sample_pull_parse =
     map_of [(pull_json ''pulling manifest'', pull_value ''pulling manifest''),
             (pull_json ''success'', pull_value ''success'')]"

definition sample_stream :: string where
  "sample_stream = ndjson [chat_json ''Hel'' False, chat_json ''lo, '' False] @ chat_json ''world'' False"




definition done_stream :: string where
  "done_stream = ndjson [chat_json ''Hel'' False, chat_json [] True, chat_json ''world'' False]"

definition split_chunks :: "byte list list" where
  \<open>split_chunks = [ascii_bytes ''{"status":"suc'', ascii_bytes (''cess"}'' @ [newline])]\<close>

definition whole_chunk :: "byte list list" where
  \<open>whole_chunk = [ascii_bytes (''{"status":"success"}'' @ [newline])]\<close>

definition unterminated_chunk :: "byte list list" where
  \<open>unterminated_chunk = [ascii_bytes ''{"status":"success"}'']\<close>

definition sample_app :: App where
  "sample_app =
     \<lparr>ollamaHost = ''http://localhost:11434'',
      models = [\<lparr>name = ''llama3:latest'', modified_at = ''2024-05-01T12:00:00Z'', model_size = Finite 4661224676\<rparr>],
      selectedModel = ''llama3:latest'', messages = [], isLoading = False, error = None\<rparr>"

definition hello_stream :: string where
  "hello_stream = ndjson [chat_json ''Hel'' False, chat_json ''lo, '' False, chat_json ''world'' False, chat_json [] True]"

definition partial_stream :: string where
  "partial_stream = ndjson [chat_json ''Hel'' False]"

definition other_models :: "OllamaModel list" where
  "other_models =
     [\<lparr>name = ''mistral:latest'', modified_at = ''2024-04-02T09:30:00Z'', model_size = Finite 4109865159\<rparr>,
      \<lparr>name = ''phi3:mini'', modified_at = ''2024-04-28T17:45:00Z'', model_size = Finite 2318920898\<rparr>]"

definition downloading :: "number option \<Rightarrow> number option \<Rightarrow> OllamaPullStatus" where
  "downloading c t = \<lparr>status = ''downloading'', digest = None, total = t, completed = c, pull_error = None\<rparr>"

section \<open>Properties of the stream decoders\<close>

subsection \<open>The buffer loop of streamChat\<close>

lemma decode_append:
  "decode stp s (a @ b) =
     (case decode stp s a of (x, s') \<Rightarrow> (case decode stp s' b of (y, s'') \<Rightarrow> (x @ y, s'')))"
  by (induction a arbitrary: s) (auto split: prod.splits)

lemma indexOf_None: "c \<notin> set s \<Longrightarrow> indexOf s c = None"
  by (induction s) auto

lemma indexOf_first: "c \<notin> set l \<Longrightarrow> indexOf (l @ c # rest) c = Some (length l)"
  by (induction l) auto

lemma indexOf_append: "indexOf a c = Some i \<Longrightarrow> indexOf (a @ b) c = Some i"
  by (induction a arbitrary: i) (auto split: if_splits)

lemma process_buffer_no_newline: "newline \<notin> set r \<Longrightarrow> process_buffer parse r = ([], Some r)"
  by (subst process_buffer.simps) (simp add: indexOf_None)

lemma process_buffer_line:
  "newline \<notin> set l \<Longrightarrow>
   process_buffer parse (l @ newline # rest) =
     (case handle_line parse l of
        (es, True) \<Rightarrow> (es, None)
      | (es, False) \<Rightarrow> (case process_buffer parse rest of (es', r) \<Rightarrow> (es @ es', r)))"
  by (subst process_buffer.simps) (simp add: indexOf_first)

lemma process_buffer_append:
  "process_buffer parse (a @ b) =
     (case process_buffer parse a of
        (es, None) \<Rightarrow> (es, None)
      | (es, Some left) \<Rightarrow> (case process_buffer parse (left @ b) of (es', r) \<Rightarrow> (es @ es', r)))"
proof (induction parse a rule: process_buffer.induct)
  case (1 parse buffer)
  show ?case
  proof (cases "indexOf buffer newline")
    case None
    then have "process_buffer parse buffer = ([], Some buffer)"
      by (subst process_buffer.simps) simp
    then show ?thesis by (simp split: prod.splits)
  next
    case (Some i)
    then have i: "i < length buffer" by (rule indexOf_less)
    have ix: "indexOf (buffer @ b) newline = Some i" using Some by (rule indexOf_append)
    obtain es d where h: "handle_line parse (take i buffer) = (es, d)" by (cases "handle_line parse (take i buffer)")
    show ?thesis
    proof (cases d)
      case True
      then show ?thesis using Some ix h i
        by (subst process_buffer.simps, subst (2) process_buffer.simps) simp
    next
      case False
      then have d: "d = False" by simp
      note IH = 1[OF Some h[symmetric] d]
      show ?thesis using Some ix h i False IH
        by (subst process_buffer.simps, subst (2) process_buffer.simps) (simp split: prod.splits option.splits)
    qed
  qed
qed

lemma callbacks_append: "callbacks (a @ b) = callbacks a @ callbacks b"
  by (induction a rule: callbacks.induct) auto

lemma reads_append: "reads (a @ b) = reads a + reads b"
  by (induction a rule: reads.induct) auto

lemma logged_append: "logged (a @ b) = logged a @ logged b"
  by (induction a rule: logged.induct) auto

lemma reads_handle_line: "reads (fst (handle_line parse l)) = 0"
  by (simp add: handle_line_def split: option.splits)

lemma indexOf_None_iff: "indexOf s c = None \<longleftrightarrow> c \<notin> set s"
  by (induction s) auto

lemma reads_process_buffer: "reads (fst (process_buffer parse buffer)) = 0"
proof (induction parse buffer rule: process_buffer.induct)
  case (1 parse buffer)
  show ?case
  proof (cases "indexOf buffer newline")
    case None
    then show ?thesis by (subst process_buffer.simps) simp
  next
    case (Some i)
    obtain es d where h: "handle_line parse (take i buffer) = (es, d)" by (cases "handle_line parse (take i buffer)")
    have r: "reads es = 0" using reads_handle_line[of parse "take i buffer"] h by simp
    show ?thesis
    proof (cases d)
      case True
      then show ?thesis using Some h r by (subst process_buffer.simps) simp
    next
      case False
      then have d: "d = False" by simp
      obtain es' r' where p: "process_buffer parse (drop (i + 1) buffer) = (es', r')"
        by (cases "process_buffer parse (drop (i + 1) buffer)")
      have "reads es' = 0" using 1[OF Some h[symmetric] d] p by simp
      then show ?thesis using Some h r d p
        by (subst process_buffer.simps) (simp add: reads_append)
    qed
  qed
qed

lemma process_buffer_left: "process_buffer parse buffer = (es, Some left) \<Longrightarrow> newline \<notin> set left"
proof (induction parse buffer arbitrary: es rule: process_buffer.induct)
  case (1 parse buffer)
  show ?case
  proof (cases "indexOf buffer newline")
    case None
    then have "process_buffer parse buffer = ([], Some buffer)" by (subst process_buffer.simps) simp
    then show ?thesis using "1.prems" None by (simp add: indexOf_None_iff)
  next
    case (Some i)
    obtain es0 d where h: "handle_line parse (take i buffer) = (es0, d)" by (cases "handle_line parse (take i buffer)")
    show ?thesis
    proof (cases d)
      case True
      then have "process_buffer parse buffer = (es0, None)" using Some h by (subst process_buffer.simps) simp
      then show ?thesis using "1.prems" by simp
    next
      case False
      then have d: "d = False" by simp
      obtain es' r' where p: "process_buffer parse (drop (i + 1) buffer) = (es', r')"
        by (cases "process_buffer parse (drop (i + 1) buffer)")
      have "process_buffer parse buffer = (es0 @ es', r')" using Some h d p by (subst process_buffer.simps) simp
      then have "r' = Some left" using "1.prems" by simp
      then show ?thesis using "1.IH"[OF Some h[symmetric] d, of es'] p by simp
    qed
  qed
qed

lemma chat_loop_text:
  assumes "newline \<notin> set buffer"
    and "chat_loop stp parse st buffer chunks e = (es, out)"
    and "process_buffer parse (buffer @ fst (decode stp st (concat chunks))) = (es', r)"
  shows "callbacks es = callbacks es' \<and> logged es = logged es'
         \<and> out = (case r of None \<Rightarrow> Resolved | Some left \<Rightarrow> settle e)
         \<and> reads es = (case r of None \<Rightarrow> reads es | Some left \<Rightarrow> length chunks + 1)
         \<and> reads es \<le> length chunks + (case r of None \<Rightarrow> 0 | Some left \<Rightarrow> 1)"
  using assms
proof (induction chunks arbitrary: st buffer es es' out r)
  case Nil
  then show ?case by (auto simp: process_buffer_no_newline)
next
  case (Cons v rest)
  obtain piece st' where d: "decode stp st v = (piece, st')" by (cases "decode stp st v")
  obtain more st'' where d2: "decode stp st' (concat rest) = (more, st'')" by (cases "decode stp st' (concat rest)")
  have all: "fst (decode stp st (concat (v # rest))) = piece @ more"
    using d d2 by (simp add: decode_append)
  obtain es1 r1 where p: "process_buffer parse (buffer @ piece) = (es1, r1)" by (cases "process_buffer parse (buffer @ piece)")
  have rd: "reads es1 = 0" using reads_process_buffer[of parse "buffer @ piece"] p by simp
  have app: "process_buffer parse (buffer @ piece @ more) =
     (case r1 of None \<Rightarrow> (es1, None)
      | Some left \<Rightarrow> (case process_buffer parse (left @ more) of (es2, r2) \<Rightarrow> (es1 @ es2, r2)))"
    using process_buffer_append[of parse "buffer @ piece" more] p by simp
  show ?case
  proof (cases r1)
    case None
    then have "es = Read # es1" "out = Resolved" using Cons.prems(2) d p by auto
    moreover have "es' = es1" "r = None" using Cons.prems(3) all app None by auto
    ultimately show ?thesis using rd by simp
  next
    case (Some left)
    then have nl: "newline \<notin> set left" using p process_buffer_left by blast
    obtain es2 out2 where c2: "chat_loop stp parse st' left rest e = (es2, out2)"
      by (cases "chat_loop stp parse st' left rest e")
    obtain es2' r2 where p2: "process_buffer parse (left @ more) = (es2', r2)"
      by (cases "process_buffer parse (left @ more)")
    have p2': "process_buffer parse (left @ fst (decode stp st' (concat rest))) = (es2', r2)"
      using p2 d2 by simp
    note IH = Cons.IH[OF nl c2 p2']
    have "es = Read # es1 @ es2" "out = out2" using Cons.prems(2) d p Some c2 by auto
    moreover have "es' = es1 @ es2'" "r = r2" using Cons.prems(3) all app Some p2 by auto
    ultimately show ?thesis using IH rd
      by (auto simp: callbacks_append logged_append reads_append split: option.splits)
  qed
qed

lemma process_buffer_records:
  "\<forall>l\<in>set ls. newline \<notin> set l \<Longrightarrow>
   process_buffer parse (ndjson ls @ rest) =
     (case chat_records parse ls of
        (es, True) \<Rightarrow> (es, None)
      | (es, False) \<Rightarrow> (case process_buffer parse rest of (es', r) \<Rightarrow> (es @ es', r)))"
proof (induction ls)
  case Nil
  then show ?case by (simp add: ndjson_def split: prod.splits)
next
  case (Cons l ls)
  have "ndjson (l # ls) @ rest = l @ newline # (ndjson ls @ rest)" by (simp add: ndjson_def)
  then show ?case using Cons
    by (auto simp: process_buffer_line split: prod.splits bool.splits)
qed

lemma callbacks_chat_records: "callbacks (fst (chat_records parse ls)) = spec_deltas parse ls"
proof (induction ls)
  case Nil
  then show ?case by simp
next
  case (Cons l ls)
  then show ?case
    by (auto simp: callbacks_append handle_line_def delta_def split: prod.splits bool.splits option.splits if_splits)
qed

lemma ndjson_decomposition:
  "\<exists>records trailing. s = ndjson records @ trailing
      \<and> (\<forall>r\<in>set records. newline \<notin> set r) \<and> newline \<notin> set trailing"
proof (induction s)
  case Nil
  have "[] = ndjson [] @ [] \<and> (\<forall>r\<in>set []. newline \<notin> set r) \<and> newline \<notin> set []"
    by (simp add: ndjson_def)
  then show ?case by blast
next
  case (Cons x xs)
  then obtain rs t where xs: "xs = ndjson rs @ t" and rs: "\<forall>r\<in>set rs. newline \<notin> set r"
    and t: "newline \<notin> set t" by blast
  show ?case
  proof (cases "x = newline")
    case True
    have "x # xs = ndjson ([] # rs) @ t \<and> (\<forall>r\<in>set ([] # rs). newline \<notin> set r) \<and> newline \<notin> set t"
      using True xs rs t by (simp add: ndjson_def)
    then show ?thesis by blast
  next
    case False
    show ?thesis
    proof (cases rs)
      case Nil
      have "x # xs = ndjson [] @ (x # t) \<and> (\<forall>r\<in>set []. newline \<notin> set r) \<and> newline \<notin> set (x # t)"
        using False xs t Nil by (simp add: ndjson_def)
      then show ?thesis by blast
    next
      case (Cons r rs')
      have "x # xs = ndjson ((x # r) # rs') @ t \<and> (\<forall>r\<in>set ((x # r) # rs'). newline \<notin> set r) \<and> newline \<notin> set t"
        using False xs rs t Cons by (simp add: ndjson_def)
      then show ?thesis by blast
    qed
  qed
qed


lemma chat_records_done:
  "trim d \<noteq> [] \<Longrightarrow> parse d = Some ev \<Longrightarrow> done_flag ev \<Longrightarrow> snd (chat_records parse (before @ [d])) = True"
  by (induction before) (auto simp: handle_line_def split: prod.splits bool.splits)

lemma chat_loop_stops:
  "newline \<notin> set buffer \<Longrightarrow>
   snd (process_buffer parse (buffer @ fst (decode stp st (concat cs)))) = None \<Longrightarrow>
   chat_loop stp parse st buffer (cs @ rest) e = chat_loop stp parse st buffer cs e'"
proof (induction cs arbitrary: st buffer)
  case Nil
  then show ?case by (simp add: process_buffer_no_newline)
next
  case (Cons v cs)
  obtain piece st' where d: "decode stp st v = (piece, st')" by (cases "decode stp st v")
  obtain more st'' where d2: "decode stp st' (concat cs) = (more, st'')" by (cases "decode stp st' (concat cs)")
  have all: "fst (decode stp st (concat (v # cs))) = piece @ more"
    using d d2 by (simp add: decode_append)
  obtain es1 r1 where p: "process_buffer parse (buffer @ piece) = (es1, r1)" by (cases "process_buffer parse (buffer @ piece)")
  have app: "process_buffer parse (buffer @ piece @ more) =
     (case r1 of None \<Rightarrow> (es1, None)
      | Some left \<Rightarrow> (case process_buffer parse (left @ more) of (es2, r2) \<Rightarrow> (es1 @ es2, r2)))"
    using process_buffer_append[of parse "buffer @ piece" more] p by simp
  show ?case
  proof (cases r1)
    case None
    then show ?thesis using d p by simp
  next
    case (Some left)
    then have nl: "newline \<notin> set left" using p process_buffer_left by blast
    have "snd (process_buffer parse (left @ fst (decode stp st' (concat cs)))) = None"
      using Cons.prems(2) all app Some d2 by (simp split: prod.splits)
    then have "chat_loop stp parse st' left (cs @ rest) e = chat_loop stp parse st' left cs e'"
      using Cons.IH[OF nl] by simp
    then show ?thesis using d p Some by simp
  qed
qed

subsection \<open>The sample inputs\<close>

lemma ascii_byte:
  assumes "of_char c < (128::nat)"
  shows "(of_char c :: byte) < 0x80" and "char_of (unat (of_char c :: byte)) = c"
proof -
  have w: "(of_char c :: byte) = of_nat (of_char c)" by (simp only: of_nat_of_char)
  have u: "unat (of_char c :: byte) = of_char c"
    unfolding w using assms by (simp add: unat_of_nat)
  show "(of_char c :: byte) < 0x80" using assms u by (simp add: word_less_nat_alt)
  show "char_of (unat (of_char c :: byte)) = c" using u by simp
qed

lemma decode_utf8_ascii:
  "list_all (\<lambda>c. of_char c < (128::nat)) s \<Longrightarrow> decode (dec_step utf8_ascii) u (ascii_bytes s) = (s, u)"
  by (induction s) (simp_all add: utf8_ascii_def ascii_bytes_def ascii_byte)

lemma chat_json_ascii:
  "list_all (\<lambda>c. of_char c < (128::nat)) c \<Longrightarrow> list_all (\<lambda>c. of_char c < (128::nat)) (chat_json c d)"
  by (simp add: chat_json_def)

lemma trim_chat_json: "trim (chat_json c d) \<noteq> []"
  by (simp add: chat_json_def trim_def is_white_space_def)

lemma sample_parse_simps:
  "sample_parse (chat_json ''Hel'' False) = Some (chat_value ''Hel'' False)"
  "sample_parse (chat_json ''lo, '' False) = Some (chat_value ''lo, '' False)"
  "sample_parse (chat_json ''world'' False) = Some (chat_value ''world'' False)"
  "sample_parse (chat_json [] True) = Some (chat_value [] True)"
  by (simp_all add: sample_parse_def chat_json_def)

lemma ascii_bytes_take_drop: "ascii_bytes (take n s) @ ascii_bytes (drop n s) = ascii_bytes s"
  by (simp add: ascii_bytes_def flip: map_append)

lemma concat_singletons: "concat (map (\<lambda>b. [b]) xs) = xs"
  by (induction xs) simp_all

lemma list_all_ndjson:
  "list_all (\<lambda>r. list_all (\<lambda>c. of_char c < (128::nat)) r) rs \<Longrightarrow> list_all (\<lambda>c. of_char c < (128::nat)) (ndjson rs)"
  by (induction rs) (simp_all add: ndjson_def newline_def)

subsection \<open>pullModel and the outcome of a call\<close>

lemma split_line: "c \<notin> set l \<Longrightarrow> split (l @ c # rest) c = l # split rest c"
  by (induction l) (auto split: list.splits)

lemma split_no_separator: "c \<notin> set l \<Longrightarrow> split l c = [l]"
  by (induction l) auto

lemma trim_Nil: "trim [] = []"
  by (simp add: trim_def)

lemma pull_chunk_line:
  "newline \<notin> set l \<Longrightarrow>
   pull_chunk parse (l @ newline # rest) =
     (if trim l = [] then []
      else (case parse l of None \<Rightarrow> [ConsoleError l] | Some parsed \<Rightarrow> [Callback parsed]))
     @ pull_chunk parse rest"
  by (simp add: pull_chunk_def split_line)

lemma pull_chunk_no_newline:
  "newline \<notin> set l \<Longrightarrow>
   pull_chunk parse l =
     (if trim l = [] then []
      else (case parse l of None \<Rightarrow> [ConsoleError l] | Some parsed \<Rightarrow> [Callback parsed]))"
  by (simp add: pull_chunk_def split_no_separator)



lemma trim_pull_json: "trim (pull_json s) \<noteq> []"
  by (simp add: pull_json_def trim_def is_white_space_def)

lemma sample_pull_parse_simps:
  "sample_pull_parse (pull_json ''pulling manifest'') = Some (pull_value ''pulling manifest'')"
  "sample_pull_parse (pull_json ''success'') = Some (pull_value ''success'')"
  by (simp_all add: sample_pull_parse_def pull_json_def)

subsection \<open>streamChat on a stream of records\<close>

lemma streamChat_records:
  assumes "\<forall>r\<in>set records. newline \<notin> set r"
    and "newline \<notin> set trailing"
    and "fst (decode (dec_step decoder) (dec_init decoder) (concat chunks)) = ndjson records @ trailing"
  shows "callbacks (fst (streamChat baseUrl decoder parse (Response (Some (chunks, e))) mdl msgs))
           = spec_deltas parse records"
    and "snd (streamChat baseUrl decoder parse (Response (Some (chunks, e))) mdl msgs)
           = (if snd (chat_records parse records) then Resolved else settle e)"
proof -
  obtain es out where c: "chat_loop (dec_step decoder) parse (dec_init decoder) [] chunks e = (es, out)"
    by (cases "chat_loop (dec_step decoder) parse (dec_init decoder) [] chunks e")
  obtain es' r where p: "process_buffer parse ([] @ fst (decode (dec_step decoder) (dec_init decoder) (concat chunks))) = (es', r)"
    by (cases "process_buffer parse ([] @ fst (decode (dec_step decoder) (dec_init decoder) (concat chunks)))")
  have t: "callbacks es = callbacks es' \<and> out = (case r of None \<Rightarrow> Resolved | Some left \<Rightarrow> settle e)"
    using chat_loop_text[OF _ c p] by simp
  have "es' = fst (chat_records parse records) \<and> r = (if snd (chat_records parse records) then None else Some trailing)"
    using p assms process_buffer_records[of records parse trailing]
    by (auto simp: process_buffer_no_newline split: prod.splits bool.splits)
  then show "callbacks (fst (streamChat baseUrl decoder parse (Response (Some (chunks, e))) mdl msgs))
           = spec_deltas parse records"
    and "snd (streamChat baseUrl decoder parse (Response (Some (chunks, e))) mdl msgs)
           = (if snd (chat_records parse records) then Resolved else settle e)"
    using c t by (simp_all add: streamChat_def callbacks_chat_records)
qed


subsection \<open>The state updates of handleSendMessage\<close>

lemma callbacks_handle_line_nonempty: "[] \<notin> set (callbacks (fst (handle_line parse l)))"
  by (simp add: handle_line_def split: option.splits)

lemma callbacks_process_buffer_nonempty: "[] \<notin> set (callbacks (fst (process_buffer parse buffer)))"
proof (induction parse buffer rule: process_buffer.induct)
  case (1 parse buffer)
  show ?case
  proof (cases "indexOf buffer newline")
    case None
    then show ?thesis by (subst process_buffer.simps) simp
  next
    case (Some i)
    obtain es d where h: "handle_line parse (take i buffer) = (es, d)" by (cases "handle_line parse (take i buffer)")
    have r: "[] \<notin> set (callbacks es)" using callbacks_handle_line_nonempty[of parse "take i buffer"] h by simp
    show ?thesis
    proof (cases d)
      case True
      then show ?thesis using Some h r by (subst process_buffer.simps) simp
    next
      case False
      then have d: "d = False" by simp
      obtain es' r' where p: "process_buffer parse (drop (i + 1) buffer) = (es', r')"
        by (cases "process_buffer parse (drop (i + 1) buffer)")
      have "[] \<notin> set (callbacks es')" using 1[OF Some h[symmetric] d] p by simp
      then show ?thesis using Some h r d p
        by (subst process_buffer.simps) (simp add: callbacks_append)
    qed
  qed
qed

lemma streamChat_deltas_nonempty:
  "[] \<notin> set (callbacks (fst (streamChat baseUrl decoder parse response mdl msgs)))"
proof (cases response)
  case (FetchRejected err)
  then show ?thesis by (simp add: streamChat_def)
next
  case (Response body)
  show ?thesis
  proof (cases body)
    case None
    then show ?thesis using Response by (simp add: streamChat_def)
  next
    case (Some b)
    obtain chunks e where b: "b = (chunks, e)" by (cases b)
    obtain es out where c: "chat_loop (dec_step decoder) parse (dec_init decoder) [] chunks e = (es, out)"
      by (cases "chat_loop (dec_step decoder) parse (dec_init decoder) [] chunks e")
    obtain es' r where p: "process_buffer parse ([] @ fst (decode (dec_step decoder) (dec_init decoder) (concat chunks))) = (es', r)"
      by (cases "process_buffer parse ([] @ fst (decode (dec_step decoder) (dec_init decoder) (concat chunks)))")
    have "callbacks es = callbacks es'" using chat_loop_text[OF _ c p] by simp
    moreover have "[] \<notin> set (callbacks es')"
      using callbacks_process_buffer_nonempty[of parse "[] @ fst (decode (dec_step decoder) (dec_init decoder) (concat chunks))"] p
      by simp
    ultimately show ?thesis using Response Some b c by (simp add: streamChat_def)
  qed
qed

lemma apply_chunks_last:
  "apply_chunks deltas (history @ [m]) = Some (history @ [m\<lparr>content := content m @ concat deltas\<rparr>])"
  by (induction deltas arbitrary: m) (simp_all add: onChunk_def)

lemma handleSendMessage_run:
  assumes "selectedModel st \<noteq> []"
    and "streamChat (OllamaService (ollamaHost st)) decoder parse response (selectedModel st)
           (messages st @ [\<lparr>role = User, content = msg, images = imgs\<rparr>]) = (trace, out)"
  shows "handleSendMessage decoder parse response st msg imgs =
     Some (st\<lparr>messages :=
                (let streamed = messages st @ [\<lparr>role = User, content = msg, images = imgs\<rparr>,
                                               \<lparr>role = Assistant, content = concat (callbacks trace), images = None\<rparr>]
                 in case out of Resolved \<Rightarrow> streamed
                    | Rejected err \<Rightarrow> catch_update (errorMessage err) streamed),
              isLoading := False, error := None\<rparr>, trace)"
proof -
  have "apply_chunks (callbacks trace)
          ((messages st @ [\<lparr>role = User, content = msg, images = imgs\<rparr>]) @ [\<lparr>role = Assistant, content = [], images = None\<rparr>])
        = Some ((messages st @ [\<lparr>role = User, content = msg, images = imgs\<rparr>])
                 @ [\<lparr>role = Assistant, content = concat (callbacks trace), images = None\<rparr>])"
    using apply_chunks_last[of "callbacks trace" "messages st @ [\<lparr>role = User, content = msg, images = imgs\<rparr>]"
        "\<lparr>role = Assistant, content = [], images = None\<rparr>"] by simp
  then show ?thesis using assms
    by (simp add: handleSendMessage_def Let_def split: outcome.splits)
qed

lemma catch_update_empty:
  "catch_update m (history @ [\<lparr>role = Assistant, content = [], images = i\<rparr>])
   = history @ [\<lparr>role = Assistant, content = ''Error: '' @ m, images = i\<rparr>]"
  by (simp add: catch_update_def)

lemma catch_update_partial:
  "c \<noteq> [] \<Longrightarrow>
   catch_update m (history @ [\<lparr>role = r, content = c, images = i\<rparr>])
   = history @ [\<lparr>role = r, content = c, images = i\<rparr>, \<lparr>role = Assistant, content = ''Error: '' @ m, images = None\<rparr>]"
  by (simp add: catch_update_def)

subsection \<open>The sample chat runs\<close>

lemma errorMessage_failed_to_fetch:
  "errorMessage (TypeError ''Failed to fetch'') =
   ''Could not connect to Ollama. Please verify the host is running and reachable, and that CORS is configured correctly.''"
  by code_simp

lemma errorMessage_network_error:
  "errorMessage (TypeError ''network error'') = ''network error''"
  by code_simp



lemma sample_partial_text:
  "fst (decode (dec_step utf8_ascii) (dec_init utf8_ascii) (concat [ascii_bytes partial_stream]))
     = ndjson [chat_json ''Hel'' False] @ []"
proof -
  have a: "list_all (\<lambda>c. of_char c < (128::nat)) partial_stream"
    unfolding partial_stream_def by (simp add: list_all_ndjson chat_json_ascii)
  show ?thesis
    using a by (simp add: decode_utf8_ascii) (simp add: partial_stream_def)
qed

lemma sample_partial_deltas:
  "callbacks (fst (streamChat ''http://localhost:11434'' utf8_ascii sample_parse
      (Response (Some ([ascii_bytes partial_stream], Failed (TypeError ''network error''))))
      ''llama3:latest'' ms)) = [''Hel'']"
proof -
  have h1: "\<forall>r\<in>set [chat_json ''Hel'' False]. newline \<notin> set r"
    by (simp add: chat_json_def newline_def)
  show ?thesis
    using streamChat_records(1)[OF h1 _ sample_partial_text, of "''http://localhost:11434''" sample_parse
      "Failed (TypeError ''network error'')" "''llama3:latest''" ms]
    by (simp add: sample_parse_simps trim_chat_json delta_def chat_value_def)
qed

lemma sample_partial_run:
  "streamChat ''http://localhost:11434'' utf8_ascii sample_parse
      (Response (Some ([ascii_bytes partial_stream], Failed (TypeError ''network error''))))
      ''llama3:latest'' ms
   = (fst (streamChat ''http://localhost:11434'' utf8_ascii sample_parse
      (Response (Some ([ascii_bytes partial_stream], Failed (TypeError ''network error''))))
      ''llama3:latest'' ms), Rejected (TypeError ''network error''))"
proof -
  have h1: "\<forall>r\<in>set [chat_json ''Hel'' False]. newline \<notin> set r"
    by (simp add: chat_json_def newline_def)
  show ?thesis
    using streamChat_records(2)[OF h1 _ sample_partial_text, of "''http://localhost:11434''" sample_parse
      "Failed (TypeError ''network error'')" "''llama3:latest''" ms]
    by (simp add: prod_eq_iff handle_line_def sample_parse_simps trim_chat_json chat_value_def)
qed

lemma streamChat_request:
  "\<exists>es. fst (streamChat baseUrl decoder parse response mdl msgs)
         = Fetch (baseUrl @ ''/api/chat'') (ChatRequest mdl msgs) # es"
  by (cases response) (auto simp: streamChat_def Let_def split: option.splits prod.splits)

subsection \<open>What is logged, and pullModel on whole records\<close>













subsection \<open>The progress bar\<close>

lemma PullProgress_bar:
  "truthy (Some c) \<Longrightarrow> truthy (Some t) \<Longrightarrow> completed st = Some c \<Longrightarrow> total st = Some t \<Longrightarrow>
   PullProgress ar st = (status st, Bar (js_multiply ar (js_divide ar c t) (Finite 100)))"
  by (simp add: PullProgress_def percentage_def)

lemma PullProgress_bar_iff:
  "(\<exists>w. snd (PullProgress ar st) = Bar w) \<longleftrightarrow> truthy (total st) \<and> truthy (completed st)"
  by (auto simp: PullProgress_def truthy_def split: option.splits number.splits)

section \<open>The claims\<close>

text \<open>
  C1. For every sequence of newline-terminated chat records, followed by an
  unterminated trailing text, and for every list of chunks whose bytes decode to that
  text, the contents handed to \<open>onChunk\<close> by \<open>streamChat\<close> are the content deltas of the
  records, in order: the chunking does not matter and the trailing text is never
  delivered.
\<close>

theorem streamChat_chunking:
  assumes "\<forall>r\<in>set records. newline \<notin> set r"
    and "newline \<notin> set trailing"
    and "fst (decode (dec_step decoder) (dec_init decoder) (concat chunks)) = ndjson records @ trailing"
  shows "callbacks (fst (streamChat baseUrl decoder parse (Response (Some (chunks, Closed))) mdl msgs))
         = spec_deltas parse records"
  using assms by (rule streamChat_records(1))

theorem streamChat_chunking_witness:
  "callbacks (fst (streamChat ''http://localhost:11434'' utf8_ascii sample_parse
      (Response (Some ([ascii_bytes (take 50 sample_stream), ascii_bytes (drop 50 sample_stream)], Closed)))
      ''llama3'' []))
   = [''Hel'', ''lo, '']
   \<and> callbacks (fst (streamChat ''http://localhost:11434'' utf8_ascii sample_parse
      (Response (Some (map (\<lambda>b. [b]) (ascii_bytes sample_stream), Closed)))
      ''llama3'' []))
   = [''Hel'', ''lo, '']"
proof -
  have h1: "\<forall>r\<in>set [chat_json ''Hel'' False, chat_json ''lo, '' False]. newline \<notin> set r"
    by (simp add: chat_json_def newline_def)
  have h2: "newline \<notin> set (chat_json ''world'' False)"
    by (simp add: chat_json_def newline_def)
  have a: "list_all (\<lambda>c. of_char c < (128::nat)) sample_stream"
    unfolding sample_stream_def by (simp add: list_all_ndjson chat_json_ascii)
  have h3: "fst (decode (dec_step utf8_ascii) (dec_init utf8_ascii)
              (concat [ascii_bytes (take 50 sample_stream), ascii_bytes (drop 50 sample_stream)]))
            = ndjson [chat_json ''Hel'' False, chat_json ''lo, '' False] @ chat_json ''world'' False"
    using a by (simp add: ascii_bytes_take_drop decode_utf8_ascii) (simp add: sample_stream_def)
  have h4: "fst (decode (dec_step utf8_ascii) (dec_init utf8_ascii)
              (concat (map (\<lambda>b. [b]) (ascii_bytes sample_stream))))
            = ndjson [chat_json ''Hel'' False, chat_json ''lo, '' False] @ chat_json ''world'' False"
    using a by (simp add: concat_singletons decode_utf8_ascii) (simp add: sample_stream_def)
  show ?thesis
    using streamChat_chunking[OF h1 h2 h3, of "''http://localhost:11434''" sample_parse "''llama3''" "[]"]
      streamChat_chunking[OF h1 h2 h4, of "''http://localhost:11434''" sample_parse "''llama3''" "[]"]
    by (simp add: sample_parse_simps trim_chat_json delta_def chat_value_def)
qed

text \<open>
  C2. \<open>pullModel\<close> parses the lines of each read on their own and keeps no buffer
  between reads. The record \<open>{"status":"success"}\<close> with its newline is one event for
  the specification, and is delivered once when it arrives in one read; when the same
  bytes arrive in two reads that split the record, both fragments fail to parse, are
  logged, and nothing is delivered; and when the record arrives without its
  terminating newline it is delivered all the same.
\<close>

theorem pullModel_split_record:
  \<open>concat split_chunks = concat whole_chunk
   \<and> spec_events sample_pull_parse [''{"status":"success"}''] = [pull_value ''success'']
   \<and> fst (pullModel ''http://localhost:11434'' utf8_ascii sample_pull_parse (Response (Some (whole_chunk, Closed))) ''llama3'')
     = [Fetch ''http://localhost:11434/api/pull'' (PullRequest ''llama3''), Read,
        Callback (pull_value ''success''), Read]
   \<and> fst (pullModel ''http://localhost:11434'' utf8_ascii sample_pull_parse (Response (Some (split_chunks, Closed))) ''llama3'')
     = [Fetch ''http://localhost:11434/api/pull'' (PullRequest ''llama3''), Read,
        ConsoleError ''{"status":"suc'', Read, ConsoleError ''cess"}'', Read]
   \<and> fst (pullModel ''http://localhost:11434'' utf8_ascii sample_pull_parse (Response (Some (unterminated_chunk, Closed))) ''llama3'')
     = [Fetch ''http://localhost:11434/api/pull'' (PullRequest ''llama3''), Read,
        Callback (pull_value ''success''), Read]\<close>
proof -
  have c: \<open>concat split_chunks = concat whole_chunk\<close>
    by (simp add: split_chunks_def whole_chunk_def ascii_bytes_def)
  have s: \<open>spec_events sample_pull_parse [''{"status":"success"}''] = [pull_value ''success'']\<close>
    using sample_pull_parse_simps(2) trim_pull_json[of "''success''"] by (simp add: pull_json_def)
  have d1: \<open>decode (dec_step utf8_ascii) () (ascii_bytes (''{"status":"success"}'' @ [newline])) = (''{"status":"success"}'' @ [newline], ())\<close>
    by (rule decode_utf8_ascii) (simp add: newline_def)
  have d2: \<open>decode (dec_step utf8_ascii) () (ascii_bytes ''{"status":"suc'') = (''{"status":"suc'', ())\<close>
    by (rule decode_utf8_ascii) simp
  have d3: \<open>decode (dec_step utf8_ascii) () (ascii_bytes (''cess"}'' @ [newline])) = (''cess"}'' @ [newline], ())\<close>
    by (rule decode_utf8_ascii) (simp add: newline_def)
  have d4: \<open>decode (dec_step utf8_ascii) () (ascii_bytes ''{"status":"success"}'') = (''{"status":"success"}'', ())\<close>
    by (rule decode_utf8_ascii) simp
  have p1: \<open>pull_chunk sample_pull_parse (''{"status":"success"}'' @ [newline]) = [Callback (pull_value ''success'')]\<close>
    using pull_chunk_line[of \<open>''{"status":"success"}''\<close> sample_pull_parse "[]"]
      sample_pull_parse_simps(2) trim_pull_json[of "''success''"]
    by (simp add: pull_json_def newline_def pull_chunk_no_newline trim_Nil)
  have p4: \<open>pull_chunk sample_pull_parse ''{"status":"success"}'' = [Callback (pull_value ''success'')]\<close>
    using pull_chunk_no_newline[of \<open>''{"status":"success"}''\<close> sample_pull_parse]
      sample_pull_parse_simps(2) trim_pull_json[of "''success''"]
    by (simp add: pull_json_def newline_def)
  have p2: \<open>pull_chunk sample_pull_parse ''{"status":"suc'' = [ConsoleError ''{"status":"suc'']\<close>
    using pull_chunk_no_newline[of \<open>''{"status":"suc''\<close> sample_pull_parse]
    by (simp add: newline_def sample_pull_parse_def pull_json_def trim_def is_white_space_def)
  have p3: \<open>pull_chunk sample_pull_parse (''cess"}'' @ [newline]) = [ConsoleError ''cess"}'']\<close>
    using pull_chunk_line[of \<open>''cess"}''\<close> sample_pull_parse "[]"]
    by (simp add: newline_def sample_pull_parse_def pull_json_def trim_def is_white_space_def pull_chunk_no_newline)
  have r: \<open>fst (pullModel ''http://localhost:11434'' utf8_ascii sample_pull_parse (Response (Some (whole_chunk, Closed))) ''llama3'')
     = [Fetch ''http://localhost:11434/api/pull'' (PullRequest ''llama3''), Read,
        Callback (pull_value ''success''), Read]
   \<and> fst (pullModel ''http://localhost:11434'' utf8_ascii sample_pull_parse (Response (Some (split_chunks, Closed))) ''llama3'')
     = [Fetch ''http://localhost:11434/api/pull'' (PullRequest ''llama3''), Read,
        ConsoleError ''{"status":"suc'', Read, ConsoleError ''cess"}'', Read]
   \<and> fst (pullModel ''http://localhost:11434'' utf8_ascii sample_pull_parse (Response (Some (unterminated_chunk, Closed))) ''llama3'')
     = [Fetch ''http://localhost:11434/api/pull'' (PullRequest ''llama3''), Read,
        Callback (pull_value ''success''), Read]\<close>
    using d1 d2 d3 d4 p1 p2 p3 p4
    by (simp add: pullModel_def whole_chunk_def split_chunks_def unterminated_chunk_def utf8_ascii_def)
  show ?thesis using c s r by simp
qed

text \<open>
  C3. When the chunks up to and including \<open>c\<close> carry the records \<open>before\<close> and then a
  record \<open>d\<close> with \<open>done\<close>, whatever text \<open>tail\<close> follows it in the buffer and whatever
  chunks \<open>rest\<close> follow on the connection: \<open>onChunk\<close> receives the deltas of \<open>before\<close> and
  \<open>d\<close> only, no chunk after \<open>c\<close> is read, and the call resolves.
\<close>

theorem streamChat_done_stops:
  assumes "\<forall>r\<in>set before. newline \<notin> set r"
    and "newline \<notin> set d" and "trim d \<noteq> []" and "parse d = Some ev" and "done_flag ev"
    and "fst (decode (dec_step decoder) (dec_init decoder) (concat (cs @ [c]))) = ndjson (before @ [d]) @ tail"
  shows "callbacks (fst (streamChat baseUrl decoder parse (Response (Some (cs @ c # rest, e))) mdl msgs))
           = spec_deltas parse (before @ [d])
         \<and> reads (fst (streamChat baseUrl decoder parse (Response (Some (cs @ c # rest, e))) mdl msgs))
           \<le> length cs + 1
         \<and> snd (streamChat baseUrl decoder parse (Response (Some (cs @ c # rest, e))) mdl msgs) = Resolved"
proof -
  let ?stp = "dec_step decoder" and ?s0 = "dec_init decoder"
  have recs: "\<forall>r\<in>set (before @ [d]). newline \<notin> set r" using assms(1,2) by simp
  have dn: "snd (chat_records parse (before @ [d])) = True"
    using assms(3-5) by (rule chat_records_done)
  obtain es' r where p: "process_buffer parse ([] @ fst (decode ?stp ?s0 (concat (cs @ [c])))) = (es', r)"
    by (cases "process_buffer parse ([] @ fst (decode ?stp ?s0 (concat (cs @ [c]))))")
  have pr: "es' = fst (chat_records parse (before @ [d])) \<and> r = None"
    using p assms(6) dn process_buffer_records[OF recs, of parse tail]
    by (auto split: prod.splits bool.splits)
  then have stop: "snd (process_buffer parse ([] @ fst (decode ?stp ?s0 (concat (cs @ [c]))))) = None"
    using p by simp
  obtain es o1 where c1: "chat_loop ?stp parse ?s0 [] (cs @ [c]) Closed = (es, o1)"
    by (cases "chat_loop ?stp parse ?s0 [] (cs @ [c]) Closed")
  have facts: "callbacks es = callbacks es' \<and> reads es \<le> length (cs @ [c]) \<and> o1 = Resolved"
    using chat_loop_text[OF _ c1 p] pr by simp
  have "chat_loop ?stp parse ?s0 [] ((cs @ [c]) @ rest) e = chat_loop ?stp parse ?s0 [] (cs @ [c]) Closed"
    using stop by (intro chat_loop_stops) simp_all
  then have same: "chat_loop ?stp parse ?s0 [] (cs @ c # rest) e = (es, Resolved)"
    using c1 facts by simp
  show ?thesis using same pr facts by (simp add: streamChat_def callbacks_chat_records)
qed

theorem streamChat_done_stops_witness:
  "callbacks (fst (streamChat ''http://localhost:11434'' utf8_ascii sample_parse
      (Response (Some ([ascii_bytes (take 50 done_stream), ascii_bytes (drop 50 done_stream),
                        ascii_bytes (ndjson [chat_json ''lo, '' False])],
                       Failed (TypeError ''network error''))))
      ''llama3'' [])) = [''Hel'']
   \<and> reads (fst (streamChat ''http://localhost:11434'' utf8_ascii sample_parse
      (Response (Some ([ascii_bytes (take 50 done_stream), ascii_bytes (drop 50 done_stream),
                        ascii_bytes (ndjson [chat_json ''lo, '' False])],
                       Failed (TypeError ''network error''))))
      ''llama3'' [])) \<le> 2
   \<and> snd (streamChat ''http://localhost:11434'' utf8_ascii sample_parse
      (Response (Some ([ascii_bytes (take 50 done_stream), ascii_bytes (drop 50 done_stream),
                        ascii_bytes (ndjson [chat_json ''lo, '' False])],
                       Failed (TypeError ''network error''))))
      ''llama3'' []) = Resolved"
proof -
  have h1: "\<forall>r\<in>set [chat_json ''Hel'' False]. newline \<notin> set r"
    by (simp add: chat_json_def newline_def)
  have h2: "newline \<notin> set (chat_json [] True)"
    by (simp add: chat_json_def newline_def)
  have a: "list_all (\<lambda>c. of_char c < (128::nat)) done_stream"
    unfolding done_stream_def by (simp add: list_all_ndjson chat_json_ascii)
  have h6: "fst (decode (dec_step utf8_ascii) (dec_init utf8_ascii)
              (concat ([ascii_bytes (take 50 done_stream)] @ [ascii_bytes (drop 50 done_stream)])))
            = ndjson ([chat_json ''Hel'' False] @ [chat_json [] True]) @ ndjson [chat_json ''world'' False]"
    using a by (simp add: ascii_bytes_take_drop decode_utf8_ascii) (simp add: done_stream_def ndjson_def)
  show ?thesis
    using streamChat_done_stops[where before = "[chat_json ''Hel'' False]" and d = "chat_json [] True"
        and parse = sample_parse and ev = "chat_value [] True" and decoder = utf8_ascii
        and cs = "[ascii_bytes (take 50 done_stream)]" and c = "ascii_bytes (drop 50 done_stream)"
        and tail = "ndjson [chat_json ''world'' False]"
        and rest = "[ascii_bytes (ndjson [chat_json ''lo, '' False])]"
        and e = "Failed (TypeError ''network error'')" and baseUrl = "''http://localhost:11434''"
        and mdl = "''llama3''" and msgs = "[]", OF h1 h2 trim_chat_json sample_parse_simps(4) _ h6]
    by (simp add: sample_parse_simps trim_chat_json delta_def chat_value_def)
qed


text \<open>
  C5 (as amended). When the chat call rejects, the history is the user message followed
  by: the placeholder with the formatted error as its content, if no delta was
  delivered; otherwise the placeholder with exactly the streamed text, unchanged, and
  after it a new assistant message holding the formatted error.
\<close>

theorem chat_failure_message:
  assumes "selectedModel st \<noteq> []"
    and "streamChat (OllamaService (ollamaHost st)) decoder parse response (selectedModel st)
           (messages st @ [\<lparr>role = User, content = msg, images = imgs\<rparr>]) = (trace, Rejected err)"
  shows "handleSendMessage decoder parse response st msg imgs =
     Some (st\<lparr>messages :=
                messages st @ [\<lparr>role = User, content = msg, images = imgs\<rparr>]
                @ (if callbacks trace = []
                   then [\<lparr>role = Assistant, content = ''Error: '' @ errorMessage err, images = None\<rparr>]
                   else [\<lparr>role = Assistant, content = concat (callbacks trace), images = None\<rparr>,
                         \<lparr>role = Assistant, content = ''Error: '' @ errorMessage err, images = None\<rparr>]),
              isLoading := False, error := None\<rparr>, trace)"
proof (cases "callbacks trace = []")
  case True
  then show ?thesis
    using handleSendMessage_run[OF assms]
      catch_update_empty[of "errorMessage err" "messages st @ [\<lparr>role = User, content = msg, images = imgs\<rparr>]" None]
    by simp
next
  case False
  have "[] \<notin> set (callbacks trace)"
    using streamChat_deltas_nonempty[of "OllamaService (ollamaHost st)" decoder parse response "selectedModel st"
        "messages st @ [\<lparr>role = User, content = msg, images = imgs\<rparr>]"] assms(2) by simp
  then have ne: "concat (callbacks trace) \<noteq> []" using False by (cases "callbacks trace") auto
  show ?thesis
    using handleSendMessage_run[OF assms] False
      catch_update_partial[OF ne, of "errorMessage err" "messages st @ [\<lparr>role = User, content = msg, images = imgs\<rparr>]" Assistant None]
    by simp
qed

theorem chat_failure_message_witness:
  "map_option (messages \<circ> fst)
     (handleSendMessage utf8_ascii sample_parse (FetchRejected (TypeError ''Failed to fetch'')) sample_app ''Hi'' None)
   = Some [\<lparr>role = User, content = ''Hi'', images = None\<rparr>,
           \<lparr>role = Assistant,
            content = ''Error: Could not connect to Ollama. Please verify the host is running and reachable, and that CORS is configured correctly.'',
            images = None\<rparr>]
   \<and> map_option (messages \<circ> fst)
     (handleSendMessage utf8_ascii sample_parse
        (Response (Some ([ascii_bytes partial_stream], Failed (TypeError ''network error'')))) sample_app ''Hi'' None)
   = Some [\<lparr>role = User, content = ''Hi'', images = None\<rparr>,
           \<lparr>role = Assistant, content = ''Hel'', images = None\<rparr>,
           \<lparr>role = Assistant, content = ''Error: network error'', images = None\<rparr>]"
proof -
  have s: "selectedModel sample_app \<noteq> []" by (simp add: sample_app_def)
  have r1: "streamChat (OllamaService (ollamaHost sample_app)) utf8_ascii sample_parse
      (FetchRejected (TypeError ''Failed to fetch'')) (selectedModel sample_app)
      (messages sample_app @ [\<lparr>role = User, content = ''Hi'', images = None\<rparr>])
     = ([Fetch ''http://localhost:11434/api/chat''
           (ChatRequest ''llama3:latest'' [\<lparr>role = User, content = ''Hi'', images = None\<rparr>])],
        Rejected (TypeError ''Failed to fetch''))"
    by (simp add: streamChat_def sample_app_def OllamaService_def)
  have r2: "streamChat (OllamaService (ollamaHost sample_app)) utf8_ascii sample_parse
      (Response (Some ([ascii_bytes partial_stream], Failed (TypeError ''network error''))))
      (selectedModel sample_app) (messages sample_app @ [\<lparr>role = User, content = ''Hi'', images = None\<rparr>])
     = (fst (streamChat ''http://localhost:11434'' utf8_ascii sample_parse
      (Response (Some ([ascii_bytes partial_stream], Failed (TypeError ''network error''))))
      ''llama3:latest'' [\<lparr>role = User, content = ''Hi'', images = None\<rparr>]), Rejected (TypeError ''network error''))"
    using sample_partial_run[of "[\<lparr>role = User, content = ''Hi'', images = None\<rparr>]"]
    by (simp add: sample_app_def OllamaService_def)
  show ?thesis
    unfolding chat_failure_message[OF s r1] chat_failure_message[OF s r2]
    by (simp add: sample_partial_deltas errorMessage_failed_to_fetch errorMessage_network_error)
       (simp add: sample_app_def)
qed

text \<open>
  C5 as stated fails: after the delta \<open>Hel\<close> and a broken connection the placeholder's
  content is still \<open>Hel\<close>, with no suffix; the error is a third message of its own.
\<close>

theorem error_after_delta_counterexample:
  "map_option (map content \<circ> messages \<circ> fst)
     (handleSendMessage utf8_ascii sample_parse
        (Response (Some ([ascii_bytes partial_stream], Failed (TypeError ''network error'')))) sample_app ''Hi'' None)
   = Some [''Hi'', ''Hel'', ''Error: network error'']"
proof -
  have s: "selectedModel sample_app \<noteq> []" by (simp add: sample_app_def)
  have r2: "streamChat (OllamaService (ollamaHost sample_app)) utf8_ascii sample_parse
      (Response (Some ([ascii_bytes partial_stream], Failed (TypeError ''network error''))))
      (selectedModel sample_app) (messages sample_app @ [\<lparr>role = User, content = ''Hi'', images = None\<rparr>])
     = (fst (streamChat ''http://localhost:11434'' utf8_ascii sample_parse
      (Response (Some ([ascii_bytes partial_stream], Failed (TypeError ''network error''))))
      ''llama3:latest'' [\<lparr>role = User, content = ''Hi'', images = None\<rparr>]), Rejected (TypeError ''network error''))"
    using sample_partial_run[of "[\<lparr>role = User, content = ''Hi'', images = None\<rparr>]"]
    by (simp add: sample_app_def OllamaService_def)
  show ?thesis
    unfolding handleSendMessage_run[OF s r2]
    by (simp add: sample_partial_deltas errorMessage_network_error catch_update_def)
       (simp add: sample_app_def)
qed



text \<open>
  C7. With no model selected, \<open>handleSendMessage\<close> makes no service call (its trace is
  empty, so no request is sent; with a model selected the trace starts with the
  request, lemma \<open>streamChat_request\<close>), and the state it leaves is the old one with
  exactly one assistant message, the inline error, appended to the history.
\<close>

theorem no_model_selected:
  assumes "selectedModel st = []"
  shows "handleSendMessage decoder parse response st msg imgs =
     Some (st\<lparr>messages := messages st @
              [\<lparr>role = Assistant, content = ''Error: Please select a model from the sidebar first.'', images = None\<rparr>]\<rparr>,
           [])
   \<and> map_option (requests \<circ> snd) (handleSendMessage decoder parse response st msg imgs) = Some []"
  using assms by (simp add: handleSendMessage_def)

theorem no_model_selected_witness:
  "handleSendMessage utf8_ascii sample_parse
     (Response (Some ([ascii_bytes hello_stream], Closed))) (sample_app\<lparr>selectedModel := []\<rparr>) ''Hi'' None =
     Some (sample_app\<lparr>selectedModel := [], messages :=
              [\<lparr>role = Assistant, content = ''Error: Please select a model from the sidebar first.'', images = None\<rparr>]\<rparr>,
           [])
   \<and> map_option (requests \<circ> snd) (handleSendMessage utf8_ascii sample_parse
     (Response (Some ([ascii_bytes hello_stream], Closed))) (sample_app\<lparr>selectedModel := []\<rparr>) ''Hi'' None) = Some []"
  using no_model_selected[of "sample_app\<lparr>selectedModel := []\<rparr>" utf8_ascii sample_parse
      "Response (Some ([ascii_bytes hello_stream], Closed))" "''Hi''" None]
  by (simp add: sample_app_def)

text \<open>
  C8. For an event with \<open>completed = 0\<close> and \<open>total = 200\<close> the guard
  \<open>status.total && status.completed\<close> is falsy: \<open>PullProgress\<close> renders no bar, and renders
  the number 0 as a text node instead, whatever the arithmetic is. With \<open>completed\<close>
  missing it renders nothing under the status line; with both counts truthy it renders
  the bar (lemma \<open>PullProgress_bar\<close>).
\<close>

theorem PullProgress_zero_completed:
  "PullProgress ar (downloading (Some (Finite 0)) (Some (Finite 200))) = (''downloading'', TextNode (Finite 0))
   \<and> PullProgress ar (downloading None (Some (Finite 200))) = (''downloading'', Nothing)"
  by (simp add: PullProgress_def downloading_def truthy_def)

text \<open>
  C9. When \<open>listModels\<close> fails (the request rejects, the status is not a success, or
  the body is not JSON), \<open>fetchModels\<close> leaves an empty model list and an empty
  selection.
\<close>

theorem failed_listing_clears:
  assumes "listModels response = Inl err"
  shows "models (fetchModels response st) = [] \<and> selectedModel (fetchModels response st) = []"
  using assms by (simp add: fetchModels_def)

theorem failed_listing_clears_witness:
  "models (fetchModels (TagsRejected (TypeError ''Failed to fetch'')) sample_app) = []
   \<and> selectedModel (fetchModels (TagsRejected (TypeError ''Failed to fetch'')) sample_app) = []
   \<and> models (fetchModels (TagsResponse False (Inr \<lparr>tag_models = other_models\<rparr>)) sample_app) = []
   \<and> selectedModel (fetchModels (TagsResponse False (Inr \<lparr>tag_models = other_models\<rparr>)) sample_app) = []
   \<and> models sample_app \<noteq> [] \<and> selectedModel sample_app \<noteq> []"
proof -
  have a: "listModels (TagsRejected (TypeError ''Failed to fetch'')) = Inl (TypeError ''Failed to fetch'')"
    by (simp add: listModels_def)
  have b: "listModels (TagsResponse False (Inr \<lparr>tag_models = other_models\<rparr>))
           = Inl (Error ''Failed to fetch models from Ollama.'')"
    by (simp add: listModels_def)
  show ?thesis
    using failed_listing_clears[OF a, of sample_app] failed_listing_clears[OF b, of sample_app]
    by (simp add: sample_app_def)
qed

text \<open>
  C10. After \<open>fetchModels\<close> the selection is empty or the name of a model of the list
  it leaves; and when the listing succeeds with a list that is not empty and does not
  have the previous selection, the selection becomes the name of its first model.
\<close>

theorem selection_in_list:
  "(selectedModel (fetchModels response st) = []
      \<or> selectedModel (fetchModels response st) \<in> set (map name (models (fetchModels response st))))
   \<and> (listModels response = Inr data \<longrightarrow> tag_models data \<noteq> []
        \<longrightarrow> selectedModel st \<notin> set (map name (tag_models data))
        \<longrightarrow> selectedModel (fetchModels response st) = name (hd (tag_models data)))"
proof -
  have ex: "list_ex (\<lambda>m. name m = s) ms \<longleftrightarrow> s \<in> set (map name ms)" for s and ms :: "OllamaModel list"
    by (induction ms) auto
  show ?thesis
    by (cases "listModels response") (auto simp: fetchModels_def Let_def ex)
qed

theorem selection_in_list_witness:
  "selectedModel (fetchModels (TagsResponse True (Inr \<lparr>tag_models = other_models\<rparr>)) sample_app) = ''mistral:latest''
   \<and> models (fetchModels (TagsResponse True (Inr \<lparr>tag_models = other_models\<rparr>)) sample_app) = other_models
   \<and> selectedModel sample_app = ''llama3:latest''"
proof -
  have a: "listModels (TagsResponse True (Inr \<lparr>tag_models = other_models\<rparr>)) = Inr \<lparr>tag_models = other_models\<rparr>"
    by (simp add: listModels_def)
  have b: "tag_models \<lparr>tag_models = other_models\<rparr> \<noteq> []" by (simp add: other_models_def)
  have c: "selectedModel sample_app \<notin> set (map name (tag_models \<lparr>tag_models = other_models\<rparr>))"
    by (simp add: other_models_def sample_app_def)
  have "selectedModel (fetchModels (TagsResponse True (Inr \<lparr>tag_models = other_models\<rparr>)) sample_app)
        = name (hd (tag_models \<lparr>tag_models = other_models\<rparr>))"
    using selection_in_list[of "TagsResponse True (Inr \<lparr>tag_models = other_models\<rparr>)" sample_app
        "\<lparr>tag_models = other_models\<rparr>"] a b c by blast
  then show ?thesis
    by (simp add: other_models_def) (simp add: fetchModels_def listModels_def sample_app_def other_models_def)
qed

end
